theory Spec2Isabelle
  imports Main "HOL-Library.Word"
begin

section \<open>The websocket speech relay of backend/server.py\<close>

text \<open>
  The handler \<open>ws_endpoint\<close> owns one websocket and one recognizer. It reads a message,
  classifies it by the keys it carries, drives the recognizer, sends at most one JSON
  event and reads the next message. The recognizer (vosk), the JSON parser and the
  websocket transport are libraries outside the repository: they are parameters of the
  model, collected in the record \<open>env\<close>, and each of their calls may raise.
\<close>

subsection \<open>Data\<close>

type_synonym byte = "8 word"

text \<open>
  The two exception classes the handler's \<open>except\<close> clauses tell apart:
  \<open>WebSocketDisconnect\<close>, and any other \<open>Exception\<close> with its \<open>str(e)\<close>.
\<close>

datatype exn = WebSocketDisconnect | Exception string

text \<open>
  A received message is a dict. The handler looks at the keys \<open>bytes\<close> and \<open>text\<close>
  only. The outer option is the presence of the key (\<open>"bytes" in message\<close>), the inner
  one its value, which the ASGI message format allows to be Python's \<open>None\<close>.
\<close>

record message =
  msg_bytes :: "byte list option option"
  msg_text :: "string option option"

text \<open>
  An outbound event is the dict given to \<open>json.dumps\<close>: a type tag and the data, which is
  either what \<open>json.loads\<close> made of the recognizer's answer or a plain string.
\<close>

datatype 'j event_data = Parsed 'j | Str string

record 'j event =
  ev_type :: string
  ev_data :: "'j event_data"

text \<open>
  A recognizer object: the sample rate it was constructed with, its word-detail flag and
  the decoder state, which is opaque to the handler.
\<close>

record 'e recognizer =
  rec_sample_rate :: int
  rec_words :: bool
  rec_core :: 'e

text \<open>
  The libraries. \<open>eng_new rate\<close> is the decoder state of a recognizer constructed on the
  loaded model. The decoder calls see the whole recognizer and return the new decoder
  state. \<open>ws_send sent ev\<close> is the exception raised by sending \<open>ev\<close> after the events
  \<open>sent\<close>, if any.
\<close>

record ('e, 'j) env =
  eng_new :: "int \<Rightarrow> exn + 'e"
  eng_accept :: "'e recognizer \<Rightarrow> byte list \<Rightarrow> exn + bool \<times> 'e"
  eng_result :: "'e recognizer \<Rightarrow> exn + string \<times> 'e"
  eng_partial :: "'e recognizer \<Rightarrow> exn + string \<times> 'e"
  eng_final :: "'e recognizer \<Rightarrow> exn + string \<times> 'e"
  json_loads :: "string \<Rightarrow> exn + 'j"
  ws_send :: "'j event list \<Rightarrow> 'j event \<Rightarrow> exn option"

text \<open>
  How a connection stands after the handler has consumed a script of receive outcomes:
  still in the loop and waiting in \<open>receive\<close>; returned after \<open>break\<close>; returned from the
  \<open>WebSocketDisconnect\<close> clause; returned after \<open>websocket.close(code, reason)\<close>; or left
  by an exception raised outside the \<open>try\<close>.
\<close>

datatype status =
    Receiving
  | Returned
  | Disconnected
  | Closed int string
  | Propagated exn

text \<open>
  \<open>events\<close> are the events sent so far, oldest first. \<open>session\<close> is the recognizer the
  local variable \<open>rec\<close> holds, \<open>None\<close> once the handler has returned and dropped it.
\<close>

record ('e, 'j) conn =
  status :: status
  events :: "'j event list"
  session :: "'e recognizer option"

datatype ctl = Continue | Break

subsection \<open>Operations\<close>

definition SAMPLE_RATE :: int where
  "SAMPLE_RATE = 16000"

definition bind_exn :: "exn + 'a \<Rightarrow> ('a \<Rightarrow> exn + 'b) \<Rightarrow> exn + 'b" where
  "bind_exn x f = (case x of Inl e \<Rightarrow> Inl e | Inr v \<Rightarrow> f v)"

definition KaldiRecognizer :: "('e, 'j) env \<Rightarrow> int \<Rightarrow> exn + 'e recognizer" where
  "KaldiRecognizer env rate =
     bind_exn (eng_new env rate)
       (\<lambda>c. Inr \<lparr>rec_sample_rate = rate, rec_words = False, rec_core = c\<rparr>)"

definition SetWords :: "bool \<Rightarrow> 'e recognizer \<Rightarrow> 'e recognizer" where
  "SetWords b r = r\<lparr>rec_words := b\<rparr>"

definition AcceptWaveform ::
  "('e, 'j) env \<Rightarrow> 'e recognizer \<Rightarrow> byte list \<Rightarrow> exn + bool \<times> 'e recognizer" where
  "AcceptWaveform env r d =
     bind_exn (eng_accept env r d) (\<lambda>(b, c). Inr (b, r\<lparr>rec_core := c\<rparr>))"

definition Result :: "('e, 'j) env \<Rightarrow> 'e recognizer \<Rightarrow> exn + string \<times> 'e recognizer" where
  "Result env r = bind_exn (eng_result env r) (\<lambda>(s, c). Inr (s, r\<lparr>rec_core := c\<rparr>))"

definition PartialResult ::
  "('e, 'j) env \<Rightarrow> 'e recognizer \<Rightarrow> exn + string \<times> 'e recognizer" where
  "PartialResult env r = bind_exn (eng_partial env r) (\<lambda>(s, c). Inr (s, r\<lparr>rec_core := c\<rparr>))"

definition FinalResult ::
  "('e, 'j) env \<Rightarrow> 'e recognizer \<Rightarrow> exn + string \<times> 'e recognizer" where
  "FinalResult env r = bind_exn (eng_final env r) (\<lambda>(s, c). Inr (s, r\<lparr>rec_core := c\<rparr>))"

definition send_text ::
  "('e, 'j) env \<Rightarrow> 'j event list \<Rightarrow> 'j event \<Rightarrow> exn + 'j event list" where
  "send_text env sent ev =
     (case ws_send env sent ev of Some e \<Rightarrow> Inl e | None \<Rightarrow> Inr (sent @ [ev]))"

text \<open>
  The body of the \<open>while True\<close> loop after \<open>receive\<close> has returned \<open>message\<close>, lines 46 to
  82. \<open>len(data)\<close> of \<open>None\<close> raises a TypeError.
\<close>

definition on_message ::
  "('e, 'j) env \<Rightarrow> 'e recognizer \<Rightarrow> 'j event list \<Rightarrow> message
     \<Rightarrow> exn + ctl \<times> 'e recognizer \<times> 'j event list" where
  "on_message env rec sent message =
     (case msg_bytes message of
        Some data \<Rightarrow>
          (case data of
             None \<Rightarrow> Inl (Exception ''object of type 'NoneType' has no len()'')
           | Some d \<Rightarrow>
               if length d = 0 then Inr (Continue, rec, sent)
               else
                 bind_exn (AcceptWaveform env rec d) (\<lambda>(final_ready, rec1).
                   if final_ready then
                     bind_exn (Result env rec1) (\<lambda>(result, rec2).
                     bind_exn (json_loads env result) (\<lambda>j.
                     bind_exn (send_text env sent \<lparr>ev_type = ''final'', ev_data = Parsed j\<rparr>) (\<lambda>sent'.
                     Inr (Continue, rec2, sent'))))
                   else
                     bind_exn (PartialResult env rec1) (\<lambda>(partial, rec2).
                     bind_exn (json_loads env partial) (\<lambda>j.
                     bind_exn (send_text env sent \<lparr>ev_type = ''partial'', ev_data = Parsed j\<rparr>) (\<lambda>sent'.
                     Inr (Continue, rec2, sent'))))))
      | None \<Rightarrow>
          (case msg_text message of
             Some text \<Rightarrow>
               if text = Some ''__end__'' then
                 bind_exn (FinalResult env rec) (\<lambda>(final, rec1).
                 bind_exn (json_loads env final) (\<lambda>final_json.
                 bind_exn (send_text env sent \<lparr>ev_type = ''final'', ev_data = Parsed final_json\<rparr>) (\<lambda>sent'.
                 Inr (Break, rec1, sent'))))
               else if text = Some ''__reset__'' then
                 bind_exn (KaldiRecognizer env SAMPLE_RATE) (\<lambda>rec1.
                 let rec2 = SetWords True rec1 in
                 bind_exn (send_text env sent \<lparr>ev_type = ''system'', ev_data = Str ''reset''\<rparr>) (\<lambda>sent'.
                 Inr (Continue, rec2, sent')))
               else Inr (Continue, rec, sent)
           | None \<Rightarrow> Inr (Continue, rec, sent)))"

text \<open>The two \<open>except\<close> clauses, lines 84 to 89.\<close>

definition on_exception :: "exn \<Rightarrow> 'j event list \<Rightarrow> ('e, 'j) conn" where
  "on_exception e sent =
     (case e of
        WebSocketDisconnect \<Rightarrow> \<lparr>status = Disconnected, events = sent, session = None\<rparr>
      | Exception msg \<Rightarrow> \<lparr>status = Closed 1011 msg, events = sent, session = None\<rparr>)"

text \<open>
  The loop inside the \<open>try\<close>, run on a script of outcomes of \<open>receive\<close>: \<open>Inl e\<close> when the
  call raises \<open>e\<close>, \<open>Inr message\<close> when it returns. When the script is used up the handler
  waits in \<open>receive\<close>.
\<close>

fun ws_loop ::
  "('e, 'j) env \<Rightarrow> 'e recognizer \<Rightarrow> 'j event list \<Rightarrow> (exn + message) list \<Rightarrow> ('e, 'j) conn" where
  "ws_loop env rec sent [] = \<lparr>status = Receiving, events = sent, session = Some rec\<rparr>"
| "ws_loop env rec sent (r # rs) =
     (case r of
        Inl e \<Rightarrow> on_exception e sent
      | Inr message \<Rightarrow>
          (case on_message env rec sent message of
             Inl e \<Rightarrow> on_exception e sent
           | Inr (Continue, rec', sent') \<Rightarrow> ws_loop env rec' sent' rs
           | Inr (Break, rec', sent') \<Rightarrow> \<lparr>status = Returned, events = sent', session = None\<rparr>))"

text \<open>
  The handler after \<open>websocket.accept()\<close>: lines 40 and 41 construct the recognizer
  outside the \<open>try\<close>, then the loop runs.
\<close>

definition ws_endpoint :: "('e, 'j) env \<Rightarrow> (exn + message) list \<Rightarrow> ('e, 'j) conn" where
  "ws_endpoint env inputs =
     (case KaldiRecognizer env SAMPLE_RATE of
        Inl e \<Rightarrow> \<lparr>status = Propagated e, events = [], session = None\<rparr>
      | Inr rec \<Rightarrow> ws_loop env (SetWords True rec) [] inputs)"

subsection \<open>Messages and a small environment for concrete runs\<close>

text \<open>
  A binary frame and a text frame as a server that sets one key per message delivers them.
\<close>

definition audio :: "byte list \<Rightarrow> message" where
  "audio d = \<lparr>msg_bytes = Some (Some d), msg_text = None\<rparr>"

definition control :: "string \<Rightarrow> message" where
  "control t = \<lparr>msg_bytes = None, msg_text = Some (Some t)\<rparr>"

text \<open>A non-empty binary audio frame, whatever else the message carries.\<close>

definition audio_chunk :: "message \<Rightarrow> bool" where
  "audio_chunk m = (case msg_bytes m of Some (Some d) \<Rightarrow> d \<noteq> [] | _ \<Rightarrow> False)"

text \<open>
  What a client's disconnect looks like to the handler. The websocket library is not part
  of the repository; its \<open>receive\<close> hands the ASGI message of type
  \<open>websocket.disconnect\<close> to the caller, a dict with neither a \<open>bytes\<close> nor a \<open>text\<close> key,
  and a later call of \<open>receive\<close> raises a RuntimeError with the message below.
\<close>

definition disconnect_message :: message where
  "disconnect_message = \<lparr>msg_bytes = None, msg_text = None\<rparr>"

definition receive_after_disconnect :: string where
  "receive_after_disconnect =
     ''Cannot call '' @ [CHR 0x22] @ ''receive'' @ [CHR 0x22]
       @ '' once a disconnect message has been received.''"

text \<open>
  A toy recognizer for concrete runs. Its decoder state counts the bytes of the open
  segment, a segment is final once it holds four bytes, and a chunk with an odd number of
  bytes (half a 16-bit sample) raises. Parsing and sending always succeed.
\<close>

definition toy_env :: "(nat, string) env" where
  "toy_env =
     \<lparr>eng_new = (\<lambda>rate. Inr 0),
      eng_accept = (\<lambda>r d.
        if odd (length d) then Inl (Exception ''odd number of bytes'')
        else Inr (4 \<le> rec_core r + length d, rec_core r + length d)),
      eng_result = (\<lambda>r. Inr (''segment'', 0)),
      eng_partial = (\<lambda>r. Inr (''so far'', rec_core r)),
      eng_final = (\<lambda>r. Inr (''rest'', 0)),
      json_loads = (\<lambda>s. Inr s),
      ws_send = (\<lambda>sent ev. None)\<rparr>"

section \<open>Properties\<close>

subsection \<open>Auxiliary facts about the loop\<close>

lemmas toy_simps =
  toy_env_def audio_def control_def ws_endpoint_def on_message_def on_exception_def
  KaldiRecognizer_def SetWords_def AcceptWaveform_def Result_def PartialResult_def
  FinalResult_def send_text_def SAMPLE_RATE_def

lemma bind_exn_Inl [simp]: "bind_exn (Inl e) f = Inl e"
  by (simp add: bind_exn_def)

lemma bind_exn_Inr [simp]: "bind_exn (Inr v) f = f v"
  by (simp add: bind_exn_def)

lemma bind_exn_eq_Inr: "bind_exn x f = Inr y \<longleftrightarrow> (\<exists>v. x = Inr v \<and> f v = Inr y)"
  by (cases x) simp_all

lemma ws_loop_Inl [simp]: "ws_loop env rec sent (Inl e # rs) = on_exception e sent"
  by simp

lemma ws_loop_skip:
  "on_message env rec sent m = Inr (Continue, rec, sent) \<Longrightarrow>
   ws_loop env rec sent (Inr m # rs) = ws_loop env rec sent rs"
  by simp

lemma ws_loop_cong_suffix:
  "(\<And>rec sent. ws_loop env rec sent a = ws_loop env rec sent b) \<Longrightarrow>
   ws_loop env rec sent (xs @ a) = ws_loop env rec sent (xs @ b)"
proof (induction xs arbitrary: rec sent)
  case Nil
  then show ?case by simp
next
  case (Cons x xs)
  show ?case
  proof (cases x)
    case (Inl e)
    then show ?thesis by simp
  next
    case (Inr m)
    show ?thesis
    proof (cases "on_message env rec sent m")
      case (Inl e)
      with Inr show ?thesis by simp
    next
      case r: (Inr t)
      obtain c rec' sent' where t: "t = (c, rec', sent')" by (cases t)
      show ?thesis using Inr r t Cons.IH [OF Cons.prems] by (cases c) simp_all
    qed
  qed
qed

lemma on_exception_status [simp]: "status (on_exception e sent :: ('e, 'j) conn) \<noteq> Receiving"
  by (cases e) (simp_all add: on_exception_def)

lemma ws_loop_Receiving_session:
  "status (ws_loop env rec sent xs) = Receiving \<Longrightarrow> \<exists>r. session (ws_loop env rec sent xs) = Some r"
proof (induction xs arbitrary: rec sent)
  case Nil
  then show ?case by simp
next
  case (Cons x xs)
  then show ?case
    by (auto split: sum.splits ctl.splits prod.splits)
qed

lemma ws_loop_append:
  "ws_loop env rec sent (xs @ ys) =
     (let st = ws_loop env rec sent xs in
      if status st = Receiving then ws_loop env (the (session st)) (events st) ys else st)"
proof (induction xs arbitrary: rec sent)
  case Nil
  then show ?case by simp
next
  case (Cons x xs)
  then show ?case
    by (auto simp: Let_def split: sum.splits ctl.splits prod.splits)
qed

lemma ws_endpoint_append:
  "ws_endpoint env (xs @ ys) =
     (let st = ws_endpoint env xs in
      if status st = Receiving then ws_loop env (the (session st)) (events st) ys else st)"
  by (cases "KaldiRecognizer env SAMPLE_RATE")
     (simp_all add: ws_endpoint_def ws_loop_append)

lemma ws_endpoint_open_append:
  "ws_endpoint env xs = \<lparr>status = Receiving, events = evs, session = Some r\<rparr> \<Longrightarrow>
   ws_endpoint env (xs @ ys) = ws_loop env r evs ys"
  by (simp add: ws_endpoint_append)

lemma ws_endpoint_cong_suffix:
  "(\<And>rec sent. ws_loop env rec sent a = ws_loop env rec sent b) \<Longrightarrow>
   ws_endpoint env (xs @ a) = ws_endpoint env (xs @ b)"
proof (cases "KaldiRecognizer env SAMPLE_RATE")
  case (Inl e)
  then show ?thesis by (simp add: ws_endpoint_def)
next
  case (Inr r)
  assume "\<And>rec sent. ws_loop env rec sent a = ws_loop env rec sent b"
  then have "ws_loop env (SetWords True r) [] (xs @ a) = ws_loop env (SetWords True r) [] (xs @ b)"
    by (rule ws_loop_cong_suffix)
  with Inr show ?thesis by (simp add: ws_endpoint_def)
qed

lemma on_message_sent:
  assumes "on_message env rec sent m = Inr (c, rec', sent')"
  shows "sent' = sent \<or> (\<exists>ev. sent' = sent @ [ev])"
  using assms
  by (auto simp: on_message_def send_text_def bind_exn_eq_Inr Let_def
           split: option.splits if_splits prod.splits)

lemma ws_loop_events_extend:
  "\<exists>more. events (ws_loop env rec sent ys) = sent @ more \<and> length more \<le> length ys"
proof (induction ys arbitrary: rec sent)
  case Nil
  then show ?case by simp
next
  case (Cons y ys)
  show ?case
  proof (cases y)
    case (Inl e)
    then show ?thesis by (cases e) (simp_all add: on_exception_def)
  next
    case (Inr m)
    show ?thesis
    proof (cases "on_message env rec sent m")
      case (Inl e)
      with Inr show ?thesis by (cases e) (simp_all add: on_exception_def)
    next
      case r: (Inr t)
      obtain c rec' sent' where t: "t = (c, rec', sent')" by (cases t)
      from r t obtain new where new: "sent' = sent @ new" "length new \<le> 1"
        using on_message_sent [of env rec sent m c rec' sent'] by auto
      show ?thesis
      proof (cases c)
        case Continue
        from Cons.IH [of rec' sent'] obtain more where
          "events (ws_loop env rec' sent' ys) = sent' @ more" "length more \<le> length ys"
          by blast
        with Inr r t Continue new show ?thesis by simp
      next
        case Break
        with Inr r t new show ?thesis by simp
      qed
    qed
  qed
qed

lemma on_message_config:
  assumes "on_message env rec sent m = Inr (c, rec', sent')"
    and "rec_sample_rate rec = 16000 \<and> rec_words rec"
  shows "rec_sample_rate rec' = 16000 \<and> rec_words rec'"
  using assms
  by (auto simp: on_message_def bind_exn_eq_Inr Let_def KaldiRecognizer_def SetWords_def
        AcceptWaveform_def Result_def PartialResult_def FinalResult_def SAMPLE_RATE_def
      split: option.splits if_splits prod.splits)

lemma ws_loop_config:
  "session (ws_loop env rec sent xs) = Some r \<Longrightarrow>
   rec_sample_rate rec = 16000 \<and> rec_words rec \<Longrightarrow>
   rec_sample_rate r = 16000 \<and> rec_words r"
proof (induction xs arbitrary: rec sent)
  case Nil
  then show ?case by simp
next
  case (Cons x xs)
  show ?case
  proof (cases x)
    case (Inl e)
    with Cons.prems show ?thesis by (cases e) (simp_all add: on_exception_def)
  next
    case (Inr m)
    show ?thesis
    proof (cases "on_message env rec sent m")
      case (Inl e)
      with Inr Cons.prems show ?thesis by (cases e) (simp_all add: on_exception_def)
    next
      case r: (Inr t)
      obtain c rec' sent' where t: "t = (c, rec', sent')" by (cases t)
      have cfg: "rec_sample_rate rec' = 16000 \<and> rec_words rec'"
        using on_message_config [of env rec sent m c rec' sent'] r t Cons.prems(2) by simp
      show ?thesis
      proof (cases c)
        case Continue
        with Inr r t Cons.prems(1) have "session (ws_loop env rec' sent' xs) = Some r" by simp
        then show ?thesis using cfg by (rule Cons.IH)
      next
        case Break
        with Inr r t Cons.prems(1) show ?thesis by simp
      qed
    qed
  qed
qed

lemma on_message_audio_chunk:
  assumes "msg_bytes m = Some (Some d)" and "d \<noteq> []"
    and "on_message env rec sent m = Inr (c, rec', sent')"
  shows "\<exists>fin r1 s j. c = Continue \<and>
           AcceptWaveform env rec d = Inr (fin, r1) \<and>
           (if fin then Result env r1 else PartialResult env r1) = Inr (s, rec') \<and>
           json_loads env s = Inr j \<and>
           sent' = sent @ [\<lparr>ev_type = (if fin then ''final'' else ''partial''),
                             ev_data = Parsed j\<rparr>]"
  using assms
  by (auto simp: on_message_def send_text_def bind_exn_eq_Inr
           split: option.splits if_splits prod.splits)

lemma ws_loop_single_Receiving:
  assumes "status (ws_loop env rec sent [Inr m]) = Receiving"
  shows "\<exists>rec' sent'. on_message env rec sent m = Inr (Continue, rec', sent') \<and>
           ws_loop env rec sent [Inr m]
             = \<lparr>status = Receiving, events = sent', session = Some rec'\<rparr>"
  using assms by (auto split: sum.splits ctl.splits prod.splits)

lemma ws_loop_audio_chunks:
  assumes "\<forall>m\<in>set ms. audio_chunk m"
    and "status (ws_loop env r evs (map Inr ms)) = Receiving"
  shows "\<exists>new. events (ws_loop env r evs (map Inr ms)) = evs @ new \<and> length new = length ms \<and>
     (\<forall>i<length ms. \<exists>ri d fin r1 s r2 j.
         session (ws_loop env r evs (map Inr (take i ms))) = Some ri \<and>
         msg_bytes (ms ! i) = Some (Some d) \<and>
         AcceptWaveform env ri d = Inr (fin, r1) \<and>
         (if fin then Result env r1 else PartialResult env r1) = Inr (s, r2) \<and>
         json_loads env s = Inr j \<and>
         new ! i = \<lparr>ev_type = (if fin then ''final'' else ''partial''), ev_data = Parsed j\<rparr>)"
  using assms
proof (induction ms rule: rev_induct)
  case Nil
  then show ?case by simp
next
  case (snoc m ms)
  let ?st = "ws_loop env r evs (map Inr ms)"
  have app: "ws_loop env r evs (map Inr (ms @ [m])) =
      (if status ?st = Receiving then ws_loop env (the (session ?st)) (events ?st) [Inr m]
       else ?st)"
    using ws_loop_append [of env r evs "map Inr ms" "[Inr m]"] by (simp add: Let_def)
  have st: "status ?st = Receiving"
    using snoc.prems(2) app by (cases "status ?st = Receiving") simp_all
  from snoc.prems(1) have chunks: "\<forall>m\<in>set ms. audio_chunk m" and m: "audio_chunk m"
    by simp_all
  from snoc.IH [OF chunks st] obtain new where
    new: "events ?st = evs @ new" "length new = length ms"
    and each: "\<forall>i<length ms. \<exists>ri d fin r1 s r2 j.
         session (ws_loop env r evs (map Inr (take i ms))) = Some ri \<and>
         msg_bytes (ms ! i) = Some (Some d) \<and>
         AcceptWaveform env ri d = Inr (fin, r1) \<and>
         (if fin then Result env r1 else PartialResult env r1) = Inr (s, r2) \<and>
         json_loads env s = Inr j \<and>
         new ! i = \<lparr>ev_type = (if fin then ''final'' else ''partial''), ev_data = Parsed j\<rparr>"
    by blast
  from st obtain ri where ri: "session ?st = Some ri"
    using ws_loop_Receiving_session by blast
  from m obtain d where d: "msg_bytes m = Some (Some d)" "d \<noteq> []"
    by (auto simp: audio_chunk_def split: option.splits)
  have last: "ws_loop env r evs (map Inr (ms @ [m])) = ws_loop env ri (evs @ new) [Inr m]"
    using app st ri new by simp
  with snoc.prems(2) have "status (ws_loop env ri (evs @ new) [Inr m]) = Receiving"
    by simp
  from ws_loop_single_Receiving [OF this] obtain rec' sent' where
    om: "on_message env ri (evs @ new) m = Inr (Continue, rec', sent')"
    and fin: "ws_loop env ri (evs @ new) [Inr m]
                = \<lparr>status = Receiving, events = sent', session = Some rec'\<rparr>"
    by blast
  from on_message_audio_chunk [OF d om] obtain fin r1 s j where
    step: "AcceptWaveform env ri d = Inr (fin, r1)"
      "(if fin then Result env r1 else PartialResult env r1) = Inr (s, rec')"
      "json_loads env s = Inr j"
      "sent' = (evs @ new) @ [\<lparr>ev_type = (if fin then ''final'' else ''partial''),
                                ev_data = Parsed j\<rparr>]"
    by blast
  let ?ev = "\<lparr>ev_type = (if fin then ''final'' else ''partial''), ev_data = Parsed j\<rparr>"
  have ev: "events (ws_loop env r evs (map Inr (ms @ [m]))) = evs @ (new @ [?ev])"
    using last fin step(4) by simp
  have len: "length (new @ [?ev]) = length (ms @ [m])"
    using new(2) by simp
  have "\<exists>ri d fin r1 s r2 j.
         session (ws_loop env r evs (map Inr (take i (ms @ [m])))) = Some ri \<and>
         msg_bytes ((ms @ [m]) ! i) = Some (Some d) \<and>
         AcceptWaveform env ri d = Inr (fin, r1) \<and>
         (if fin then Result env r1 else PartialResult env r1) = Inr (s, r2) \<and>
         json_loads env s = Inr j \<and>
         (new @ [?ev]) ! i = \<lparr>ev_type = (if fin then ''final'' else ''partial''),
                                ev_data = Parsed j\<rparr>"
    if i: "i < length (ms @ [m])" for i
  proof (cases "i < length ms")
    case True
    then show ?thesis using each new(2) by (simp add: nth_append)
  next
    case False
    with i have "i = length ms" by simp
    then show ?thesis using ri d(1) step(1-3) new(2) by (auto simp: nth_append)
  qed
  with ev len show ?case by blast
qed

lemma send_text_ok:
  "\<forall>h ev. ws_send env h ev = None \<Longrightarrow> send_text env h ev = Inr (h @ [ev])"
  by (simp add: send_text_def)

lemma on_message_shift:
  assumes "\<forall>h ev. ws_send env h ev = None"
  shows "on_message env rec (pre @ sent) m =
           (case on_message env rec sent m of
              Inl e \<Rightarrow> Inl e
            | Inr (c, rec', sent') \<Rightarrow> Inr (c, rec', pre @ sent'))"
proof (cases "msg_bytes m")
  case None
  then show ?thesis
    by (simp add: on_message_def send_text_ok [OF assms] bind_exn_def Let_def
             split: option.splits sum.splits prod.splits)
next
  case (Some data)
  show ?thesis
  proof (cases data)
    case None
    with Some show ?thesis by (simp add: on_message_def)
  next
    case d: (Some d)
    show ?thesis
    proof (cases "AcceptWaveform env rec d")
      case (Inl e)
      with Some d show ?thesis by (simp add: on_message_def)
    next
      case (Inr p)
      obtain fin r1 where p: "p = (fin, r1)" by (cases p)
      show ?thesis
        using Some d Inr p
        by (cases fin)
           (simp_all add: on_message_def send_text_ok [OF assms] bind_exn_def
                     split: sum.splits prod.splits)
    qed
  qed
qed

lemma ws_loop_shift:
  assumes "\<forall>h ev. ws_send env h ev = None"
  shows "ws_loop env rec (pre @ sent) ys =
           (ws_loop env rec sent ys)\<lparr>events := pre @ events (ws_loop env rec sent ys)\<rparr>"
proof (induction ys arbitrary: rec sent)
  case Nil
  then show ?case by simp
next
  case (Cons y ys)
  show ?case
  proof (cases y)
    case (Inl e)
    then show ?thesis by (cases e) (simp_all add: on_exception_def)
  next
    case (Inr m)
    show ?thesis
    proof (cases "on_message env rec sent m")
      case (Inl e)
      with Inr show ?thesis
        by (cases e) (simp_all add: on_message_shift [OF assms] on_exception_def)
    next
      case r: (Inr t)
      obtain c rec' sent' where t: "t = (c, rec', sent')" by (cases t)
      show ?thesis
        using Inr r t Cons.IH [of rec' sent']
        by (cases c) (simp_all add: on_message_shift [OF assms])
    qed
  qed
qed

text \<open>
  When the recognizer, the parser and the transport never raise, a run of non-empty audio
  chunks leaves the connection receiving.
\<close>

lemma on_message_audio_returns:
  assumes "\<forall>r d. \<exists>b c. eng_accept env r d = Inr (b, c)"
    and "\<forall>r. \<exists>s c. eng_result env r = Inr (s, c)"
    and "\<forall>r. \<exists>s c. eng_partial env r = Inr (s, c)"
    and "\<forall>s. \<exists>j. json_loads env s = Inr j"
    and "\<forall>h ev. ws_send env h ev = None"
    and "audio_chunk m"
  shows "\<exists>rec' sent'. on_message env rec sent m = Inr (Continue, rec', sent')"
proof -
  from assms(6) obtain d where d: "msg_bytes m = Some (Some d)" "d \<noteq> []"
    by (auto simp: audio_chunk_def split: option.splits)
  from assms(1) obtain b c where a: "eng_accept env rec d = Inr (b, c)" by blast
  let ?r1 = "rec\<lparr>rec_core := c\<rparr>"
  from assms(2) obtain s1 c1 where r: "eng_result env ?r1 = Inr (s1, c1)" by blast
  from assms(3) obtain s2 c2 where p: "eng_partial env ?r1 = Inr (s2, c2)" by blast
  from assms(4) obtain j1 j2 where j: "json_loads env s1 = Inr j1" "json_loads env s2 = Inr j2"
    by blast
  show ?thesis
    using d a r p j assms(5)
    by (cases b)
       (simp_all add: on_message_def AcceptWaveform_def Result_def PartialResult_def
          send_text_def)
qed

lemma ws_loop_audio_stays_open:
  assumes "\<forall>r d. \<exists>b c. eng_accept env r d = Inr (b, c)"
    and "\<forall>r. \<exists>s c. eng_result env r = Inr (s, c)"
    and "\<forall>r. \<exists>s c. eng_partial env r = Inr (s, c)"
    and "\<forall>s. \<exists>j. json_loads env s = Inr j"
    and "\<forall>h ev. ws_send env h ev = None"
    and "\<forall>m\<in>set ms. audio_chunk m"
  shows "status (ws_loop env rec sent (map Inr ms)) = Receiving"
  using assms(6)
proof (induction ms arbitrary: rec sent)
  case Nil
  then show ?case by simp
next
  case (Cons m ms)
  then have "audio_chunk m" by simp
  from on_message_audio_returns [OF assms(1-5) this] obtain rec' sent' where
    "on_message env rec sent m = Inr (Continue, rec', sent')" by blast
  with Cons show ?case by simp
qed

subsection \<open>Audio frames\<close>

text \<open>
  C1. While the connection stays open, every non-empty binary frame makes exactly one
  event. After any script \<open>xs\<close> that leaves the connection receiving, a run of non-empty
  audio chunks \<open>ms\<close> that leaves it receiving again has appended one event per chunk, in
  order. The event of chunk \<open>i\<close> is decided by the recognizer held when the chunk
  arrives: type \<open>final\<close> with the parsed \<open>Result\<close> when \<open>AcceptWaveform\<close> returned true,
  type \<open>partial\<close> with the parsed \<open>PartialResult\<close> otherwise.
\<close>

theorem one_event_per_audio_chunk:
  assumes "ws_endpoint env xs = \<lparr>status = Receiving, events = evs, session = Some r\<rparr>"
    and "\<forall>m\<in>set ms. audio_chunk m"
    and "status (ws_endpoint env (xs @ map Inr ms)) = Receiving"
  shows "\<exists>new. events (ws_endpoint env (xs @ map Inr ms)) = evs @ new \<and>
     length new = length ms \<and>
     (\<forall>i<length ms. \<exists>ri d fin r1 s r2 j.
         session (ws_endpoint env (xs @ map Inr (take i ms))) = Some ri \<and>
         msg_bytes (ms ! i) = Some (Some d) \<and>
         AcceptWaveform env ri d = Inr (fin, r1) \<and>
         (if fin then Result env r1 else PartialResult env r1) = Inr (s, r2) \<and>
         json_loads env s = Inr j \<and>
         new ! i = \<lparr>ev_type = (if fin then ''final'' else ''partial''), ev_data = Parsed j\<rparr>)"
proof -
  have eq: "ws_endpoint env (xs @ zs) = ws_loop env r evs zs" for zs
    by (rule ws_endpoint_open_append [OF assms(1)])
  from assms(3) have "status (ws_loop env r evs (map Inr ms)) = Receiving"
    by (simp add: eq)
  from ws_loop_audio_chunks [OF assms(2) this] show ?thesis
    by (simp add: eq)
qed

theorem one_event_per_audio_chunk_witness:
  "ws_endpoint toy_env []
     = \<lparr>status = Receiving, events = [],
        session = Some \<lparr>rec_sample_rate = 16000, rec_words = True, rec_core = 0\<rparr>\<rparr> \<and>
   audio_chunk (audio [1, 2]) \<and> audio_chunk (audio [3, 4]) \<and> audio_chunk (audio [5, 6]) \<and>
   ws_endpoint toy_env ([] @ map Inr [audio [1, 2], audio [3, 4], audio [5, 6]])
     = \<lparr>status = Receiving,
        events = [\<lparr>ev_type = ''partial'', ev_data = Parsed ''so far''\<rparr>,
                  \<lparr>ev_type = ''final'', ev_data = Parsed ''segment''\<rparr>,
                  \<lparr>ev_type = ''partial'', ev_data = Parsed ''so far''\<rparr>],
        session = Some \<lparr>rec_sample_rate = 16000, rec_words = True, rec_core = 2\<rparr>\<rparr> \<and>
   (\<exists>new. events (ws_endpoint toy_env ([] @ map Inr [audio [1, 2], audio [3, 4], audio [5, 6]]))
            = [] @ new \<and>
          length new = length [audio [1, 2], audio [3, 4], audio [5, 6]])"
proof -
  have h1: "ws_endpoint toy_env []
     = \<lparr>status = Receiving, events = [],
        session = Some \<lparr>rec_sample_rate = 16000, rec_words = True, rec_core = 0\<rparr>\<rparr>"
    by (simp add: toy_simps)
  have a: "audio_chunk (audio [1, 2])" "audio_chunk (audio [3, 4])" "audio_chunk (audio [5, 6])"
    by (simp_all add: audio_chunk_def audio_def)
  then have h2: "\<forall>m\<in>set [audio [1, 2], audio [3, 4], audio [5, 6]]. audio_chunk m"
    by simp
  have run: "ws_endpoint toy_env ([] @ map Inr [audio [1, 2], audio [3, 4], audio [5, 6]])
     = \<lparr>status = Receiving,
        events = [\<lparr>ev_type = ''partial'', ev_data = Parsed ''so far''\<rparr>,
                  \<lparr>ev_type = ''final'', ev_data = Parsed ''segment''\<rparr>,
                  \<lparr>ev_type = ''partial'', ev_data = Parsed ''so far''\<rparr>],
        session = Some \<lparr>rec_sample_rate = 16000, rec_words = True, rec_core = 2\<rparr>\<rparr>"
    by (simp add: toy_simps)
  then have h3: "status (ws_endpoint toy_env
                   ([] @ map Inr [audio [1, 2], audio [3, 4], audio [5, 6]])) = Receiving"
    by simp
  from one_event_per_audio_chunk [OF h1 h2 h3]
  have c: "\<exists>new. events (ws_endpoint toy_env
                     ([] @ map Inr [audio [1, 2], audio [3, 4], audio [5, 6]])) = [] @ new \<and>
                 length new = length [audio [1, 2], audio [3, 4], audio [5, 6]]"
    by blast
  show ?thesis
    by (intro conjI) (rule h1, rule a(1), rule a(2), rule a(3), rule run, rule c)
qed

subsection \<open>The end command\<close>

text \<open>
  C2. In a connection that is receiving, whatever was fed before (nothing at all
  included), the text \<open>__end__\<close> sends exactly one event, the \<open>final\<close> event with the
  parsed \<open>FinalResult\<close> of the recognizer, and the handler leaves the loop and returns
  without reading the rest of the script. The recognizer's answer, its parsing and the send
  are taken to succeed; when one of them raises, C6 applies.
\<close>

theorem end_flushes_one_final:
  assumes "ws_endpoint env xs = \<lparr>status = Receiving, events = evs, session = Some r\<rparr>"
    and "msg_bytes m = None" and "msg_text m = Some (Some ''__end__'')"
    and "FinalResult env r = Inr (s, r1)" and "json_loads env s = Inr j"
    and "ws_send env evs \<lparr>ev_type = ''final'', ev_data = Parsed j\<rparr> = None"
  shows "ws_endpoint env (xs @ Inr m # rest)
           = \<lparr>status = Returned,
              events = evs @ [\<lparr>ev_type = ''final'', ev_data = Parsed j\<rparr>],
              session = None\<rparr>"
proof -
  have "on_message env r evs m
          = Inr (Break, r1, evs @ [\<lparr>ev_type = ''final'', ev_data = Parsed j\<rparr>])"
    using assms(2-6) by (simp add: on_message_def send_text_def)
  then show ?thesis
    using assms(1) by (simp add: ws_endpoint_open_append)
qed

theorem end_flushes_one_final_witness:
  "ws_endpoint toy_env []
     = \<lparr>status = Receiving, events = [],
        session = Some \<lparr>rec_sample_rate = 16000, rec_words = True, rec_core = 0\<rparr>\<rparr> \<and>
   ws_endpoint toy_env ([] @ Inr (control ''__end__'') # [Inr (audio [1, 2])])
     = \<lparr>status = Returned, events = [\<lparr>ev_type = ''final'', ev_data = Parsed ''rest''\<rparr>],
        session = None\<rparr>"
proof -
  have h: "ws_endpoint toy_env []
     = \<lparr>status = Receiving, events = [],
        session = Some \<lparr>rec_sample_rate = 16000, rec_words = True, rec_core = 0\<rparr>\<rparr>"
    by (simp add: toy_simps)
  have f: "FinalResult toy_env \<lparr>rec_sample_rate = 16000, rec_words = True, rec_core = 0\<rparr>
             = Inr (''rest'', \<lparr>rec_sample_rate = 16000, rec_words = True, rec_core = 0\<rparr>)"
    by (simp add: toy_simps)
  have j: "json_loads toy_env ''rest'' = Inr ''rest''"
    by (simp add: toy_env_def)
  have s: "ws_send toy_env [] \<lparr>ev_type = ''final'', ev_data = Parsed ''rest''\<rparr> = None"
    by (simp add: toy_env_def)
  have b: "msg_bytes (control ''__end__'') = None"
    and t: "msg_text (control ''__end__'') = Some (Some ''__end__'')"
    by (simp_all add: control_def)
  show ?thesis
    using h end_flushes_one_final [OF h b t f j s, of "[Inr (audio [1, 2])]"] by simp
qed

subsection \<open>The reset command\<close>

text \<open>
  C3. In a connection that is receiving, the text \<open>__reset__\<close> installs a recognizer with
  sample rate 16000 and word detail on, the same recognizer a new connection starts with,
  and sends exactly one event, \<open>system\<close> with data \<open>reset\<close>. Provided that sends succeed,
  whatever follows the reset is then handled as a new connection would handle it: same
  status, same recognizer, and the same events after those already sent.
\<close>

theorem reset_fresh_session:
  assumes "ws_endpoint env xs = \<lparr>status = Receiving, events = evs, session = Some r\<rparr>"
    and "msg_bytes m = None" and "msg_text m = Some (Some ''__reset__'')"
    and "\<forall>h ev. ws_send env h ev = None"
  shows "\<exists>c. eng_new env 16000 = Inr c \<and>
     ws_endpoint env (xs @ [Inr m])
       = \<lparr>status = Receiving,
          events = evs @ [\<lparr>ev_type = ''system'', ev_data = Str ''reset''\<rparr>],
          session = Some \<lparr>rec_sample_rate = 16000, rec_words = True, rec_core = c\<rparr>\<rparr> \<and>
     ws_endpoint env []
       = \<lparr>status = Receiving, events = [],
          session = Some \<lparr>rec_sample_rate = 16000, rec_words = True, rec_core = c\<rparr>\<rparr> \<and>
     (\<forall>ys. ws_endpoint env (xs @ Inr m # ys)
        = (ws_endpoint env ys)
            \<lparr>events := evs @ \<lparr>ev_type = ''system'', ev_data = Str ''reset''\<rparr>
                          # events (ws_endpoint env ys)\<rparr>)"
proof -
  let ?ev = "\<lparr>ev_type = ''system'', ev_data = Str ''reset''\<rparr> :: 'b event"
  obtain c where c: "eng_new env 16000 = Inr c"
    using assms(1)
    by (cases "eng_new env 16000")
       (simp_all add: ws_endpoint_def[of env xs] KaldiRecognizer_def SAMPLE_RATE_def)
  let ?fresh = "\<lparr>rec_sample_rate = 16000, rec_words = True, rec_core = c\<rparr>"
  have new: "ws_endpoint env ys = ws_loop env ?fresh [] ys" for ys
    using c by (simp add: ws_endpoint_def KaldiRecognizer_def SetWords_def SAMPLE_RATE_def)
  have om: "on_message env r evs m = Inr (Continue, ?fresh, evs @ [?ev])"
    using assms(2-4) c
    by (simp add: on_message_def send_text_def KaldiRecognizer_def SetWords_def SAMPLE_RATE_def)
  have after: "ws_endpoint env (xs @ Inr m # ys) = ws_loop env ?fresh (evs @ [?ev]) ys" for ys
    using om by (simp add: ws_endpoint_open_append [OF assms(1)])
  have "ws_endpoint env (xs @ Inr m # ys)
        = (ws_endpoint env ys)\<lparr>events := evs @ ?ev # events (ws_endpoint env ys)\<rparr>" for ys
  proof -
    have "ws_endpoint env (xs @ Inr m # ys) = ws_loop env ?fresh ((evs @ [?ev]) @ []) ys"
      by (simp add: after)
    also have "\<dots> = (ws_loop env ?fresh [] ys)
                 \<lparr>events := (evs @ [?ev]) @ events (ws_loop env ?fresh [] ys)\<rparr>"
      by (rule ws_loop_shift [OF assms(4)])
    also have "\<dots> = (ws_endpoint env ys)
                 \<lparr>events := evs @ ?ev # events (ws_endpoint env ys)\<rparr>"
      by (simp add: new)
    finally show ?thesis .
  qed
  moreover have "ws_endpoint env (xs @ [Inr m])
       = \<lparr>status = Receiving, events = evs @ [?ev], session = Some ?fresh\<rparr>"
    by (simp add: after)
  moreover have "ws_endpoint env []
       = \<lparr>status = Receiving, events = [], session = Some ?fresh\<rparr>"
    by (simp add: new)
  ultimately show ?thesis using c by blast
qed

theorem reset_fresh_session_witness:
  "ws_endpoint toy_env [Inr (audio [1, 2])]
     = \<lparr>status = Receiving, events = [\<lparr>ev_type = ''partial'', ev_data = Parsed ''so far''\<rparr>],
        session = Some \<lparr>rec_sample_rate = 16000, rec_words = True, rec_core = 2\<rparr>\<rparr> \<and>
   msg_bytes (control ''__reset__'') = None \<and>
   msg_text (control ''__reset__'') = Some (Some ''__reset__'') \<and>
   (\<forall>h ev. ws_send toy_env h ev = None) \<and>
   ws_endpoint toy_env ([Inr (audio [1, 2])] @ [Inr (control ''__reset__'')])
     = \<lparr>status = Receiving,
        events = [\<lparr>ev_type = ''partial'', ev_data = Parsed ''so far''\<rparr>,
                  \<lparr>ev_type = ''system'', ev_data = Str ''reset''\<rparr>],
        session = Some \<lparr>rec_sample_rate = 16000, rec_words = True, rec_core = 0\<rparr>\<rparr> \<and>
   ws_endpoint toy_env ([Inr (audio [1, 2])] @ Inr (control ''__reset__'') # [Inr (audio [3, 4])])
     = (ws_endpoint toy_env [Inr (audio [3, 4])])
         \<lparr>events := [\<lparr>ev_type = ''partial'', ev_data = Parsed ''so far''\<rparr>]
                      @ \<lparr>ev_type = ''system'', ev_data = Str ''reset''\<rparr>
                      # events (ws_endpoint toy_env [Inr (audio [3, 4])])\<rparr>"
proof -
  have h1: "ws_endpoint toy_env [Inr (audio [1, 2])]
     = \<lparr>status = Receiving, events = [\<lparr>ev_type = ''partial'', ev_data = Parsed ''so far''\<rparr>],
        session = Some \<lparr>rec_sample_rate = 16000, rec_words = True, rec_core = 2\<rparr>\<rparr>"
    by (simp add: toy_simps)
  have h2: "msg_bytes (control ''__reset__'') = None"
    and h3: "msg_text (control ''__reset__'') = Some (Some ''__reset__'')"
    by (simp_all add: control_def)
  have h4: "\<forall>h ev. ws_send toy_env h ev = None"
    by (simp add: toy_env_def)
  have c: "eng_new toy_env 16000 = Inr 0"
    by (simp add: toy_env_def)
  show ?thesis
    using h1 h2 h3 h4 c reset_fresh_session [OF h1 h2 h3 h4] by auto
qed

subsection \<open>Empty binary frames\<close>

text \<open>
  C4. A zero-length binary frame sends nothing and leaves the recognizer as it was: the
  loop body continues with the same recognizer and the same events, and a connection run on
  any script with such a frame in it ends exactly as on the script without the frame.
\<close>

theorem empty_frame_noop:
  assumes "msg_bytes m = Some (Some [])"
  shows "on_message env rec sent m = Inr (Continue, rec, sent) \<and>
         ws_endpoint env (xs @ Inr m # ys) = ws_endpoint env (xs @ ys)"
proof -
  have skip: "on_message env rec sent m = Inr (Continue, rec, sent)" for rec sent
    using assms by (simp add: on_message_def)
  have "ws_loop env rec sent (Inr m # ys) = ws_loop env rec sent ys" for rec sent
    by (rule ws_loop_skip [OF skip])
  then have "ws_endpoint env (xs @ Inr m # ys) = ws_endpoint env (xs @ ys)"
    by (rule ws_endpoint_cong_suffix)
  with skip show ?thesis by simp
qed

theorem empty_frame_noop_witness:
  "on_message toy_env \<lparr>rec_sample_rate = 16000, rec_words = True, rec_core = 2\<rparr> [] (audio [])
     = Inr (Continue, \<lparr>rec_sample_rate = 16000, rec_words = True, rec_core = 2\<rparr>, []) \<and>
   ws_endpoint toy_env ([Inr (audio [1, 2])] @ Inr (audio []) # [Inr (audio [3, 4])])
     = ws_endpoint toy_env ([Inr (audio [1, 2])] @ [Inr (audio [3, 4])]) \<and>
   events (ws_endpoint toy_env ([Inr (audio [1, 2])] @ [Inr (audio [3, 4])]))
     = [\<lparr>ev_type = ''partial'', ev_data = Parsed ''so far''\<rparr>,
        \<lparr>ev_type = ''final'', ev_data = Parsed ''segment''\<rparr>]"
  using empty_frame_noop [of "audio []" toy_env
      "\<lparr>rec_sample_rate = 16000, rec_words = True, rec_core = 2\<rparr>" "[]"
      "[Inr (audio [1, 2])]" "[Inr (audio [3, 4])]"]
  by (simp add: toy_simps)

subsection \<open>Order of events\<close>

text \<open>
  What one outcome of \<open>receive\<close> adds to the events, and that later outcomes only append.
\<close>

lemma ws_endpoint_events_extend:
  "\<exists>more. events (ws_endpoint env (xs @ ys)) = events (ws_endpoint env xs) @ more \<and>
          length more \<le> length ys"
proof (cases "status (ws_endpoint env xs) = Receiving")
  case True
  then show ?thesis
    using ws_loop_events_extend [of env "the (session (ws_endpoint env xs))"
        "events (ws_endpoint env xs)" ys]
    by (simp add: ws_endpoint_append Let_def)
next
  case False
  then show ?thesis by (simp add: ws_endpoint_append Let_def)
qed

lemma ws_loop_single_events:
  "\<exists>new. length new \<le> 1 \<and> events (ws_loop env r evs [x]) = evs @ new \<and>
     (case x of
        Inl e \<Rightarrow> new = []
      | Inr m \<Rightarrow>
          (case on_message env r evs m of
             Inl e \<Rightarrow> new = []
           | Inr (c, r', sent') \<Rightarrow> sent' = evs @ new))"
proof (cases x)
  case (Inl e)
  then show ?thesis by (cases e) (simp_all add: on_exception_def)
next
  case (Inr m)
  show ?thesis
  proof (cases "on_message env r evs m")
    case (Inl e)
    with Inr show ?thesis by (cases e) (simp_all add: on_exception_def)
  next
    case res: (Inr t)
    obtain c r' sent' where t: "t = (c, r', sent')" by (cases t)
    from res t obtain new where new: "sent' = evs @ new" "length new \<le> 1"
      using on_message_sent [of env r evs m c r' sent'] by auto
    with Inr res t show ?thesis by (cases c) simp_all
  qed
qed

text \<open>
  C5. Take a connection that is receiving after the script \<open>xs\<close>, with events \<open>evs\<close> and
  recognizer \<open>r\<close>, and let \<open>x\<close> be the next outcome of \<open>receive\<close>. Once \<open>x\<close> is processed
  and nothing after it has been read, the events are \<open>evs\<close> followed by at most one event,
  and that event is the one the loop body made for \<open>x\<close> at the state \<open>r\<close>, \<open>evs\<close>. Whatever
  is read afterwards only appends after it, at most one event per outcome, so the events stand
  in the order of the frames that caused them. For every script, receiving or not, reading
  more never changes the events already sent.
\<close>

theorem events_in_input_order:
  assumes "ws_endpoint env xs = \<lparr>status = Receiving, events = evs, session = Some r\<rparr>"
  shows "\<exists>new. length new \<le> 1 \<and>
     events (ws_endpoint env (xs @ [x])) = evs @ new \<and>
     (case x of
        Inl e \<Rightarrow> new = []
      | Inr m \<Rightarrow>
          (case on_message env r evs m of
             Inl e \<Rightarrow> new = []
           | Inr (c, r', sent') \<Rightarrow> sent' = evs @ new)) \<and>
     (\<forall>ys. \<exists>more. events (ws_endpoint env (xs @ x # ys)) = evs @ new @ more \<and>
                   length more \<le> length ys) \<and>
     (\<forall>zs ys. \<exists>more. events (ws_endpoint env (zs @ ys)) = events (ws_endpoint env zs) @ more \<and>
                   length more \<le> length ys)"
proof -
  have eq: "ws_endpoint env (xs @ zs) = ws_loop env r evs zs" for zs
    by (rule ws_endpoint_open_append [OF assms])
  obtain new where new: "length new \<le> 1" "events (ws_loop env r evs [x]) = evs @ new"
    "(case x of
        Inl e \<Rightarrow> new = []
      | Inr m \<Rightarrow>
          (case on_message env r evs m of
             Inl e \<Rightarrow> new = []
           | Inr (c, r', sent') \<Rightarrow> sent' = evs @ new))"
    using ws_loop_single_events [of env r evs x] by blast
  have later: "\<exists>more. events (ws_endpoint env (xs @ x # ys)) = evs @ new @ more \<and>
                 length more \<le> length ys" for ys
  proof -
    let ?st = "ws_loop env r evs [x]"
    have app: "ws_loop env r evs (x # ys) =
        (if status ?st = Receiving then ws_loop env (the (session ?st)) (events ?st) ys
         else ?st)"
      using ws_loop_append [of env r evs "[x]" ys] by (simp add: Let_def)
    show ?thesis
    proof (cases "status ?st = Receiving")
      case True
      from ws_loop_events_extend [of env "the (session ?st)" "events ?st" ys]
      obtain more where "events (ws_loop env (the (session ?st)) (events ?st) ys)
          = events ?st @ more" "length more \<le> length ys"
        by blast
      with True app new(2) show ?thesis by (simp add: eq)
    next
      case False
      with app new(2) show ?thesis by (simp add: eq)
    qed
  qed
  have any: "\<exists>more. events (ws_endpoint env (zs @ ys)) = events (ws_endpoint env zs) @ more \<and>
                 length more \<le> length ys" for zs ys
    by (rule ws_endpoint_events_extend)
  from new(1) new(2) new(3) later any show ?thesis
    unfolding eq by blast
qed

theorem events_in_input_order_witness:
  "ws_endpoint toy_env [Inr (audio [1, 2])]
     = \<lparr>status = Receiving, events = [\<lparr>ev_type = ''partial'', ev_data = Parsed ''so far''\<rparr>],
        session = Some \<lparr>rec_sample_rate = 16000, rec_words = True, rec_core = 2\<rparr>\<rparr> \<and>
   on_message toy_env \<lparr>rec_sample_rate = 16000, rec_words = True, rec_core = 2\<rparr>
       [\<lparr>ev_type = ''partial'', ev_data = Parsed ''so far''\<rparr>] (audio [3, 4])
     = Inr (Continue, \<lparr>rec_sample_rate = 16000, rec_words = True, rec_core = 0\<rparr>,
            [\<lparr>ev_type = ''partial'', ev_data = Parsed ''so far''\<rparr>]
            @ [\<lparr>ev_type = ''final'', ev_data = Parsed ''segment''\<rparr>]) \<and>
   events (ws_endpoint toy_env ([Inr (audio [1, 2])] @ [Inr (audio [3, 4])]))
     = [\<lparr>ev_type = ''partial'', ev_data = Parsed ''so far''\<rparr>]
       @ [\<lparr>ev_type = ''final'', ev_data = Parsed ''segment''\<rparr>] \<and>
   (\<forall>ys. \<exists>more. events (ws_endpoint toy_env ([Inr (audio [1, 2])] @ Inr (audio [3, 4]) # ys))
            = [\<lparr>ev_type = ''partial'', ev_data = Parsed ''so far''\<rparr>]
              @ [\<lparr>ev_type = ''final'', ev_data = Parsed ''segment''\<rparr>] @ more \<and>
          length more \<le> length ys)"
proof -
  have h: "ws_endpoint toy_env [Inr (audio [1, 2])]
     = \<lparr>status = Receiving, events = [\<lparr>ev_type = ''partial'', ev_data = Parsed ''so far''\<rparr>],
        session = Some \<lparr>rec_sample_rate = 16000, rec_words = True, rec_core = 2\<rparr>\<rparr>"
    by (simp add: toy_simps)
  have om: "on_message toy_env \<lparr>rec_sample_rate = 16000, rec_words = True, rec_core = 2\<rparr>
       [\<lparr>ev_type = ''partial'', ev_data = Parsed ''so far''\<rparr>] (audio [3, 4])
     = Inr (Continue, \<lparr>rec_sample_rate = 16000, rec_words = True, rec_core = 0\<rparr>,
            [\<lparr>ev_type = ''partial'', ev_data = Parsed ''so far''\<rparr>]
            @ [\<lparr>ev_type = ''final'', ev_data = Parsed ''segment''\<rparr>])"
    by (simp add: toy_simps)
  from events_in_input_order [OF h, of "Inr (audio [3, 4])"] om
  show ?thesis using h by auto
qed

subsection \<open>Errors\<close>

text \<open>
  C6. In a connection that is receiving, an exception other than a disconnect closes the
  connection with code 1011 and the exception's message as the reason, and no event is
  sent after those already sent. The exception may come from \<open>receive\<close>, from
  \<open>AcceptWaveform\<close>, from \<open>Result\<close> or \<open>PartialResult\<close>, from \<open>FinalResult\<close> on
  \<open>__end__\<close>, or from anywhere else in the loop body.
\<close>

theorem error_closes_1011:
  assumes "ws_endpoint env xs = \<lparr>status = Receiving, events = evs, session = Some r\<rparr>"
    and "x = Inl (Exception msg)
       \<or> (\<exists>m d. x = Inr m \<and> msg_bytes m = Some (Some d) \<and> d \<noteq> [] \<and>
                 AcceptWaveform env r d = Inl (Exception msg))
       \<or> (\<exists>m d fin r1. x = Inr m \<and> msg_bytes m = Some (Some d) \<and> d \<noteq> [] \<and>
                 AcceptWaveform env r d = Inr (fin, r1) \<and>
                 (if fin then Result env r1 else PartialResult env r1) = Inl (Exception msg))
       \<or> (\<exists>m. x = Inr m \<and> msg_bytes m = None \<and> msg_text m = Some (Some ''__end__'') \<and>
                 FinalResult env r = Inl (Exception msg))
       \<or> (\<exists>m. x = Inr m \<and> on_message env r evs m = Inl (Exception msg))"
  shows "ws_endpoint env (xs @ x # rest)
           = \<lparr>status = Closed 1011 msg, events = evs, session = None\<rparr>"
proof -
  have run: "ws_endpoint env (xs @ x # rest) = ws_loop env r evs (x # rest)"
    by (rule ws_endpoint_open_append [OF assms(1)])
  from assms(2) consider
      (recv) "x = Inl (Exception msg)"
    | (body) m where "x = Inr m" "on_message env r evs m = Inl (Exception msg)"
  proof (elim disjE exE conjE)
    assume "x = Inl (Exception msg)"
    then show ?thesis by (rule that(1))
  next
    fix m d
    assume "x = Inr m" "msg_bytes m = Some (Some d)" "d \<noteq> []"
      "AcceptWaveform env r d = Inl (Exception msg)"
    then show ?thesis by (intro that(2) [of m]) (simp_all add: on_message_def)
  next
    fix m d fin r1
    assume "x = Inr m" "msg_bytes m = Some (Some d)" "d \<noteq> []"
      "AcceptWaveform env r d = Inr (fin, r1)"
      "(if fin then Result env r1 else PartialResult env r1) = Inl (Exception msg)"
    then show ?thesis
      by (intro that(2) [of m]) (simp_all add: on_message_def split: if_splits)
  next
    fix m
    assume "x = Inr m" "msg_bytes m = None" "msg_text m = Some (Some ''__end__'')"
      "FinalResult env r = Inl (Exception msg)"
    then show ?thesis by (intro that(2) [of m]) (simp_all add: on_message_def)
  next
    fix m
    assume "x = Inr m" "on_message env r evs m = Inl (Exception msg)"
    then show ?thesis by (rule that(2))
  qed
  then show ?thesis
    unfolding run by cases (simp_all add: on_exception_def)
qed

theorem error_closes_1011_witness:
  "ws_endpoint toy_env [Inr (audio [1, 2])]
     = \<lparr>status = Receiving, events = [\<lparr>ev_type = ''partial'', ev_data = Parsed ''so far''\<rparr>],
        session = Some \<lparr>rec_sample_rate = 16000, rec_words = True, rec_core = 2\<rparr>\<rparr> \<and>
   AcceptWaveform toy_env \<lparr>rec_sample_rate = 16000, rec_words = True, rec_core = 2\<rparr> [3]
     = Inl (Exception ''odd number of bytes'') \<and>
   ws_endpoint toy_env ([Inr (audio [1, 2])] @ Inr (audio [3]) # [Inr (audio [4, 5])])
     = \<lparr>status = Closed 1011 ''odd number of bytes'',
        events = [\<lparr>ev_type = ''partial'', ev_data = Parsed ''so far''\<rparr>],
        session = None\<rparr>"
proof -
  have h1: "ws_endpoint toy_env [Inr (audio [1, 2])]
     = \<lparr>status = Receiving, events = [\<lparr>ev_type = ''partial'', ev_data = Parsed ''so far''\<rparr>],
        session = Some \<lparr>rec_sample_rate = 16000, rec_words = True, rec_core = 2\<rparr>\<rparr>"
    by (simp add: toy_simps)
  have a: "AcceptWaveform toy_env \<lparr>rec_sample_rate = 16000, rec_words = True, rec_core = 2\<rparr> [3]
     = Inl (Exception ''odd number of bytes'')"
    by (simp add: toy_simps)
  have h2: "Inr (audio [3]) = Inl (Exception ''odd number of bytes'')
       \<or> (\<exists>m d. Inr (audio [3]) = Inr m \<and> msg_bytes m = Some (Some d) \<and> d \<noteq> [] \<and>
                 AcceptWaveform toy_env \<lparr>rec_sample_rate = 16000, rec_words = True, rec_core = 2\<rparr> d
                   = Inl (Exception ''odd number of bytes''))
       \<or> (\<exists>m d fin r1. Inr (audio [3]) = Inr m \<and> msg_bytes m = Some (Some d) \<and> d \<noteq> [] \<and>
                 AcceptWaveform toy_env \<lparr>rec_sample_rate = 16000, rec_words = True, rec_core = 2\<rparr> d
                   = Inr (fin, r1) \<and>
                 (if fin then Result toy_env r1 else PartialResult toy_env r1)
                   = Inl (Exception ''odd number of bytes''))
       \<or> (\<exists>m. Inr (audio [3]) = Inr m \<and> msg_bytes m = None \<and>
                 msg_text m = Some (Some ''__end__'') \<and>
                 FinalResult toy_env \<lparr>rec_sample_rate = 16000, rec_words = True, rec_core = 2\<rparr>
                   = Inl (Exception ''odd number of bytes''))
       \<or> (\<exists>m. Inr (audio [3]) = Inr m \<and>
                 on_message toy_env \<lparr>rec_sample_rate = 16000, rec_words = True, rec_core = 2\<rparr>
                   [\<lparr>ev_type = ''partial'', ev_data = Parsed ''so far''\<rparr>] m
                   = Inl (Exception ''odd number of bytes''))"
    using a by (intro disjI2 disjI1 exI [of _ "audio [3]"] exI [of _ "[3]"]) (simp add: audio_def)
  show ?thesis
    using h1 a error_closes_1011 [OF h1 h2, of "[Inr (audio [4, 5])]"] by simp
qed

subsection \<open>Disconnects\<close>

text \<open>
  The clause of lines 84 to 86: a \<open>WebSocketDisconnect\<close> that reaches the handler, from
  \<open>receive\<close> or from inside the loop body, makes it return at once, with no event and no
  close call.
\<close>

lemma websocket_disconnect_returns:
  assumes "ws_endpoint env xs = \<lparr>status = Receiving, events = evs, session = Some r\<rparr>"
    and "x = Inl WebSocketDisconnect
       \<or> (\<exists>m. x = Inr m \<and> on_message env r evs m = Inl WebSocketDisconnect)"
  shows "ws_endpoint env (xs @ x # rest)
           = \<lparr>status = Disconnected, events = evs, session = None\<rparr>"
proof -
  have run: "ws_endpoint env (xs @ x # rest) = ws_loop env r evs (x # rest)"
    by (rule ws_endpoint_open_append [OF assms(1)])
  from assms(2) show ?thesis
    unfolding run by (auto simp: on_exception_def)
qed

text \<open>
  C7. The claim is that a disconnect of the client tears the handler down silently, with no
  event and no error close. The handler does not do that for a disconnect as \<open>receive\<close>
  delivers it. The disconnect arrives as a message with neither a \<open>bytes\<close> nor a \<open>text\<close>
  key, which the loop skips; the handler calls \<open>receive\<close> again, that call raises, and the
  second \<open>except\<close> clause closes the connection with code 1011 and the exception's message
  as the reason.
\<close>

theorem disconnect_message_closes_1011:
  assumes "ws_endpoint env xs = \<lparr>status = Receiving, events = evs, session = Some r\<rparr>"
    and "msg_bytes m = None" and "msg_text m = None"
  shows "ws_endpoint env (xs @ Inr m # Inl (Exception msg) # rest)
           = \<lparr>status = Closed 1011 msg, events = evs, session = None\<rparr>"
proof -
  have skip: "on_message env r evs m = Inr (Continue, r, evs)"
    using assms(2,3) by (simp add: on_message_def)
  have "ws_endpoint env (xs @ Inr m # Inl (Exception msg) # rest)
          = ws_loop env r evs (Inr m # Inl (Exception msg) # rest)"
    by (rule ws_endpoint_open_append [OF assms(1)])
  also have "\<dots> = ws_loop env r evs (Inl (Exception msg) # rest)"
    by (rule ws_loop_skip [OF skip])
  also have "\<dots> = \<lparr>status = Closed 1011 msg, events = evs, session = None\<rparr>"
    by (simp add: on_exception_def)
  finally show ?thesis .
qed

theorem disconnect_message_closes_1011_witness:
  "ws_endpoint toy_env [Inr (audio [1, 2])]
     = \<lparr>status = Receiving, events = [\<lparr>ev_type = ''partial'', ev_data = Parsed ''so far''\<rparr>],
        session = Some \<lparr>rec_sample_rate = 16000, rec_words = True, rec_core = 2\<rparr>\<rparr> \<and>
   ws_endpoint toy_env
       ([Inr (audio [1, 2])] @ Inr disconnect_message
          # Inl (Exception receive_after_disconnect) # [])
     = \<lparr>status = Closed 1011 receive_after_disconnect,
        events = [\<lparr>ev_type = ''partial'', ev_data = Parsed ''so far''\<rparr>],
        session = None\<rparr>"
proof -
  have h: "ws_endpoint toy_env [Inr (audio [1, 2])]
     = \<lparr>status = Receiving, events = [\<lparr>ev_type = ''partial'', ev_data = Parsed ''so far''\<rparr>],
        session = Some \<lparr>rec_sample_rate = 16000, rec_words = True, rec_core = 2\<rparr>\<rparr>"
    by (simp add: toy_simps)
  show ?thesis
    using h disconnect_message_closes_1011 [OF h,
        of disconnect_message receive_after_disconnect "[]"]
    by (simp add: disconnect_message_def)
qed

subsection \<open>Unknown text frames\<close>

text \<open>
  C8. A text frame other than \<open>__end__\<close> and \<open>__reset__\<close> sends nothing and leaves the
  recognizer as it was, and the loop goes on: a connection run on any script with such a
  frame in it ends exactly as on the script without the frame.
\<close>

theorem unknown_text_ignored:
  assumes "msg_bytes m = None" and "msg_text m = Some (Some t)"
    and "t \<noteq> ''__end__''" and "t \<noteq> ''__reset__''"
  shows "on_message env rec sent m = Inr (Continue, rec, sent) \<and>
         ws_endpoint env (xs @ Inr m # ys) = ws_endpoint env (xs @ ys)"
proof -
  have skip: "on_message env rec sent m = Inr (Continue, rec, sent)" for rec sent
    using assms by (simp add: on_message_def)
  have "ws_loop env rec sent (Inr m # ys) = ws_loop env rec sent ys" for rec sent
    by (rule ws_loop_skip [OF skip])
  then have "ws_endpoint env (xs @ Inr m # ys) = ws_endpoint env (xs @ ys)"
    by (rule ws_endpoint_cong_suffix)
  with skip show ?thesis by simp
qed

theorem unknown_text_ignored_witness:
  "on_message toy_env \<lparr>rec_sample_rate = 16000, rec_words = True, rec_core = 2\<rparr> [] (control ''foo'')
     = Inr (Continue, \<lparr>rec_sample_rate = 16000, rec_words = True, rec_core = 2\<rparr>, []) \<and>
   ws_endpoint toy_env ([Inr (audio [1, 2])] @ Inr (control ''foo'') # [Inr (audio [3, 4])])
     = ws_endpoint toy_env ([Inr (audio [1, 2])] @ [Inr (audio [3, 4])]) \<and>
   status (ws_endpoint toy_env ([Inr (audio [1, 2])] @ [Inr (audio [3, 4])])) = Receiving"
  using unknown_text_ignored [of "control ''foo''" "''foo''" toy_env
      "\<lparr>rec_sample_rate = 16000, rec_words = True, rec_core = 2\<rparr>" "[]"
      "[Inr (audio [1, 2])]" "[Inr (audio [3, 4])]"]
  by (simp add: toy_simps)

subsection \<open>Recognizer configuration\<close>

text \<open>
  C9. At every point of every connection the recognizer the session holds, the one made
  at accept or one installed by a reset, has sample rate 16000 and word detail on.
\<close>

theorem session_config_invariant:
  assumes "session (ws_endpoint env xs) = Some r"
  shows "rec_sample_rate r = 16000 \<and> rec_words r"
proof (cases "KaldiRecognizer env SAMPLE_RATE")
  case (Inl e)
  with assms show ?thesis by (simp add: ws_endpoint_def)
next
  case (Inr r0)
  then have "rec_sample_rate (SetWords True r0) = 16000 \<and> rec_words (SetWords True r0)"
    by (auto simp: KaldiRecognizer_def SetWords_def SAMPLE_RATE_def bind_exn_eq_Inr)
  moreover from Inr assms have "session (ws_loop env (SetWords True r0) [] xs) = Some r"
    by (simp add: ws_endpoint_def)
  ultimately show ?thesis by (rule ws_loop_config [rotated])
qed

theorem session_config_invariant_witness:
  "session (ws_endpoint toy_env [Inr (audio [1, 2]), Inr (control ''__reset__''), Inr (audio [3, 4])])
     = Some \<lparr>rec_sample_rate = 16000, rec_words = True, rec_core = 2\<rparr> \<and>
   rec_sample_rate \<lparr>rec_sample_rate = 16000, rec_words = True, rec_core = 2::nat\<rparr> = 16000 \<and>
   rec_words \<lparr>rec_sample_rate = 16000, rec_words = True, rec_core = 2::nat\<rparr>"
proof -
  have h: "session (ws_endpoint toy_env
             [Inr (audio [1, 2]), Inr (control ''__reset__''), Inr (audio [3, 4])])
     = Some \<lparr>rec_sample_rate = 16000, rec_words = True, rec_core = 2\<rparr>"
    by (simp add: toy_simps)
  show ?thesis using h session_config_invariant [OF h] by simp
qed

subsection \<open>Classification of messages\<close>

text \<open>
  C10. A message with both a binary and a text payload is handled as the audio frame
  with that binary payload, the text is not looked at; a message with neither key is
  skipped, with no event and no change of the recognizer.
\<close>

theorem both_keys_audio_neither_skipped:
  assumes "msg_bytes m = Some (Some d)" and "msg_text m = Some (Some t)"
    and "msg_bytes n = None" and "msg_text n = None"
  shows "on_message env rec sent m = on_message env rec sent (audio d) \<and>
         ws_endpoint env (xs @ Inr m # ys) = ws_endpoint env (xs @ Inr (audio d) # ys) \<and>
         on_message env rec sent n = Inr (Continue, rec, sent) \<and>
         ws_endpoint env (xs @ Inr n # ys) = ws_endpoint env (xs @ ys)"
proof -
  have same: "on_message env rec sent m = on_message env rec sent (audio d)" for rec sent
    using assms(1) by (simp add: on_message_def audio_def)
  have "ws_loop env rec sent (Inr m # ys) = ws_loop env rec sent (Inr (audio d) # ys)"
    for rec sent
    by (simp add: same)
  then have a: "ws_endpoint env (xs @ Inr m # ys) = ws_endpoint env (xs @ Inr (audio d) # ys)"
    by (rule ws_endpoint_cong_suffix)
  have skip: "on_message env rec sent n = Inr (Continue, rec, sent)" for rec sent
    using assms(3,4) by (simp add: on_message_def)
  have "ws_loop env rec sent (Inr n # ys) = ws_loop env rec sent ys" for rec sent
    by (rule ws_loop_skip [OF skip])
  then have b: "ws_endpoint env (xs @ Inr n # ys) = ws_endpoint env (xs @ ys)"
    by (rule ws_endpoint_cong_suffix)
  from same a skip b show ?thesis by simp
qed

theorem both_keys_audio_neither_skipped_witness:
  "on_message toy_env \<lparr>rec_sample_rate = 16000, rec_words = True, rec_core = 2\<rparr> []
      \<lparr>msg_bytes = Some (Some [1, 2]), msg_text = Some (Some ''__end__'')\<rparr>
     = Inr (Continue, \<lparr>rec_sample_rate = 16000, rec_words = True, rec_core = 0\<rparr>,
            [\<lparr>ev_type = ''final'', ev_data = Parsed ''segment''\<rparr>]) \<and>
   ws_endpoint toy_env ([] @ Inr \<lparr>msg_bytes = Some (Some [1, 2]), msg_text = Some (Some ''__end__'')\<rparr> # [])
     = \<lparr>status = Receiving, events = [\<lparr>ev_type = ''partial'', ev_data = Parsed ''so far''\<rparr>],
        session = Some \<lparr>rec_sample_rate = 16000, rec_words = True, rec_core = 2\<rparr>\<rparr> \<and>
   on_message toy_env \<lparr>rec_sample_rate = 16000, rec_words = True, rec_core = 2\<rparr> []
      \<lparr>msg_bytes = None, msg_text = None\<rparr>
     = Inr (Continue, \<lparr>rec_sample_rate = 16000, rec_words = True, rec_core = 2\<rparr>, []) \<and>
   ws_endpoint toy_env ([] @ Inr \<lparr>msg_bytes = None, msg_text = None\<rparr> # [])
     = ws_endpoint toy_env ([] @ [])"
  using both_keys_audio_neither_skipped [of
      "\<lparr>msg_bytes = Some (Some [1, 2]), msg_text = Some (Some ''__end__'')\<rparr>" "[1, 2]" "''__end__''"
      "\<lparr>msg_bytes = None, msg_text = None\<rparr>" toy_env
      "\<lparr>rec_sample_rate = 16000, rec_words = True, rec_core = 2\<rparr>" "[]" "[]" "[]"]
  by (simp add: toy_simps)

end
